theory Spec2Isabelle
  imports Main "HOL-Library.Sublist"
begin

section \<open>The document under test\<close>

text \<open>
  The suite in \<^verbatim>\<open>tests/html-structure.spec.js\<close> drives a browser and reads the page
  through locators. The page is modelled as a DOM tree: a node is a text node or an
  element with its tag name (as \<^verbatim>\<open>el.tagName\<close> reports it in an HTML document, in
  upper case), its attributes in source order and its child nodes in document order.
\<close>

datatype node = Text string | Element string "(string \<times> string) list" "node list"

text \<open>
  The JavaScript values the assertions receive from attribute reads:
  \<^verbatim>\<open>getAttribute\<close> answers a string, or \<^verbatim>\<open>null\<close> when the attribute is absent; it
  never answers \<^verbatim>\<open>undefined\<close>, which is a value of its own.
\<close>

datatype js_value = Undefined | Null | Str string

fun tagName :: "node \<Rightarrow> string" where
  "tagName (Element t as cs) = t"
| "tagName (Text s) = ''#text''"

fun childNodes :: "node \<Rightarrow> node list" where
  "childNodes (Element t as cs) = cs"
| "childNodes (Text s) = []"

fun getAttribute :: "node \<Rightarrow> string \<Rightarrow> js_value" where
  "getAttribute (Element t as cs) name =
     (case map_of as name of None \<Rightarrow> Null | Some v \<Rightarrow> Str v)"
| "getAttribute (Text s) name = Null"

fun textContent :: "node \<Rightarrow> string" where
  "textContent (Text s) = s"
| "textContent (Element t as cs) = concat (map textContent cs)"

text \<open>The elements of a subtree in document order (the root first), text nodes left out.\<close>

fun elements_of :: "node \<Rightarrow> node list" where
  "elements_of (Text s) = []"
| "elements_of (Element t as cs) = Element t as cs # concat (map elements_of cs)"

definition descendants :: "node \<Rightarrow> node list" where
  "descendants e = concat (map elements_of (childNodes e))"

subsection \<open>Strings\<close>

text \<open>The substring test of JavaScript strings: the argument occurs as a contiguous part.\<close>

fun str_includes :: "string \<Rightarrow> string \<Rightarrow> bool" where
  "str_includes [] sub = (sub = [])"
| "str_includes (c # cs) sub = (prefix sub (c # cs) \<or> str_includes cs sub)"

text \<open>ASCII white space, which separates the tokens of \<^verbatim>\<open>class\<close> and \<^verbatim>\<open>rel\<close>.\<close>

definition is_space :: "char \<Rightarrow> bool" where
  "is_space c = (c \<in> set [CHR '' '', CHR 0x09, CHR 0x0A, CHR 0x0C, CHR 0x0D])"

fun split_acc :: "string \<Rightarrow> string \<Rightarrow> string list" where
  "split_acc cur [] = (if cur = [] then [] else [cur])"
| "split_acc cur (c # cs) =
     (if is_space c then (if cur = [] then split_acc [] cs else cur # split_acc [] cs)
      else split_acc (cur @ [c]) cs)"

definition tokens :: "string \<Rightarrow> string list" where
  "tokens s = split_acc [] s"

subsection \<open>Selectors and locators\<close>

text \<open>Lower case of the ASCII letters, for the values that HTML compares without case.\<close>

definition ascii_lower :: "char \<Rightarrow> char" where
  "ascii_lower c =
     (case map_of (zip ''ABCDEFGHIJKLMNOPQRSTUVWXYZ'' ''abcdefghijklmnopqrstuvwxyz'') c of
        None \<Rightarrow> c
      | Some l \<Rightarrow> l)"

text \<open>
  The selectors the suite passes to \<^verbatim>\<open>locator\<close>, parsed: a selector is a comma-separated
  list of compound selectors, a compound selector a sequence of simple ones that must all
  match. \<^verbatim>\<open>h1, h2\<close> is \<open>[[Tag ''H1''], [Tag ''H2'']]\<close>, \<^verbatim>\<open>a[target="_blank"]\<close> is
  \<open>[[Tag ''A'', AttrEqI ''target'' ''_blank'']]\<close>, \<^verbatim>\<open>li.nav__item\<close> is
  \<open>[[Tag ''LI'', Class ''nav__item'']]\<close>. A type selector is written with the upper-case name
  it matches in an HTML document. Classes and ids are compared as they are written (the
  page is in no-quirks mode). \<open>AttrEq\<close> compares an attribute's value as it is written;
  \<open>AttrEqI\<close> is the comparison for the attributes whose values an HTML document matches
  without regard to ASCII case in attribute selectors, \<^verbatim>\<open>target\<close> among them.
\<close>

datatype simple_selector =
    Tag string
  | Class string
  | Id string
  | HasAttr string
  | AttrEq string string
  | AttrEqI string string

type_synonym selector = "simple_selector list list"

fun matches_simple :: "node \<Rightarrow> simple_selector \<Rightarrow> bool" where
  "matches_simple e (Tag t) = (tagName e = t)"
| "matches_simple e (Class c) =
     (case getAttribute e ''class'' of Str v \<Rightarrow> c \<in> set (tokens v) | _ \<Rightarrow> False)"
| "matches_simple e (Id i) = (getAttribute e ''id'' = Str i)"
| "matches_simple e (HasAttr a) = (getAttribute e a \<noteq> Null)"
| "matches_simple e (AttrEq a v) = (getAttribute e a = Str v)"
| "matches_simple e (AttrEqI a v) =
     (case getAttribute e a of
        Str w \<Rightarrow> map ascii_lower w = map ascii_lower v
      | Null \<Rightarrow> False
      | Undefined \<Rightarrow> False)"

definition matches :: "selector \<Rightarrow> node \<Rightarrow> bool" where
  "matches sel e = list_ex (list_all (matches_simple e)) sel"

text \<open>
  \<^verbatim>\<open>page.locator(sel)\<close> resolves to the matching elements of the document, in document
  order; \<^verbatim>\<open>scope.locator(sel)\<close> on an element to its matching descendants.
\<close>

definition locator :: "node \<Rightarrow> selector \<Rightarrow> node list" where
  "locator page sel = filter (matches sel) (elements_of page)"

definition locator_in :: "node \<Rightarrow> selector \<Rightarrow> node list" where
  "locator_in scope sel = filter (matches sel) (descendants scope)"

section \<open>Assertions\<close>

text \<open>
  A failing \<^verbatim>\<open>expect\<close> throws and ends the test; the model returns the failure as a
  value. Each failure carries what the matcher's error reports.
\<close>

datatype failure =
    CountMismatch nat nat
  | TextMismatch string string
  | NotFound
  | StrictModeViolation nat
  | NotLessOrEqual int int
  | NotGreaterThan nat nat
  | NotContaining js_value string
  | NotEqual js_value string
  | NotDefined
  | NotTruthy
  | ReceivedNaN
  | AtNth nat failure

text \<open>
  \<open>CountMismatch expected received\<close>, \<open>TextMismatch expected received\<close>,
  \<open>NotLessOrEqual received bound\<close>, \<open>NotGreaterThan received bound\<close>,
  \<open>NotContaining received expected\<close> and \<open>NotEqual received expected\<close> hold the
  expected and received values of the matcher's message. \<open>NotFound\<close> is a locator that
  resolved to no element, \<open>StrictModeViolation n\<close> a locator that resolved to \<open>n > 1\<close>
  elements where the matcher needs one. \<open>AtNth i f\<close> is the failure \<open>f\<close> of an assertion
  on a locator built with \<^verbatim>\<open>.nth(i)\<close>: the message names the locator, and so the index.
\<close>

type_synonym outcome = "failure + unit"

abbreviation Pass :: outcome where
  "Pass \<equiv> Inr ()"

text \<open>\<^verbatim>\<open>expect(n).toBeLessThanOrEqual(bound)\<close> and \<^verbatim>\<open>expect(n).toBeGreaterThan(bound)\<close>.\<close>

definition toBeLessThanOrEqual :: "int \<Rightarrow> int \<Rightarrow> outcome" where
  "toBeLessThanOrEqual received bound =
     (if received \<le> bound then Pass else Inl (NotLessOrEqual received bound))"

definition toBeGreaterThan :: "nat \<Rightarrow> nat \<Rightarrow> outcome" where
  "toBeGreaterThan received bound =
     (if bound < received then Pass else Inl (NotGreaterThan received bound))"

section \<open>Heading hierarchy\<close>

text \<open>
  \<^verbatim>\<open>
  const allHeadings = await page.locator('h1, h2, h3, h4, h5, h6').all()
  const headingLevels = []
  for (const heading of allHeadings) {
    const tagName = await heading.evaluate(el => el.tagName)
    const level = parseInt(tagName.substring(1))
    headingLevels.push(level)
  }
  for (let i = 1; i < headingLevels.length; i++) {
    const diff = headingLevels[i] - headingLevels[i - 1]
    expect(diff).toBeLessThanOrEqual(1)
  }
  \<close>
\<close>

definition heading_selector :: selector where
  "heading_selector =
     [[Tag ''H1''], [Tag ''H2''], [Tag ''H3''], [Tag ''H4''], [Tag ''H5''], [Tag ''H6'']]"

definition allHeadings :: "node \<Rightarrow> node list" where
  "allHeadings page = locator page heading_selector"

text \<open>
  \<^verbatim>\<open>parseInt\<close> on a string that starts with decimal digits reads them; on a string that
  starts with no digit the answer is \<^verbatim>\<open>NaN\<close>, here \<open>None\<close>. (White space, a sign or a
  \<^verbatim>\<open>0x\<close> prefix in front do not occur behind the first letter of a heading's tag name.)
\<close>

definition is_digit :: "char \<Rightarrow> bool" where
  "is_digit c = (48 \<le> (of_char c :: nat) \<and> (of_char c :: nat) \<le> 57)"

definition digit_value :: "char \<Rightarrow> int" where
  "digit_value c = int (of_char c) - 48"

definition parseInt :: "string \<Rightarrow> int option" where
  "parseInt s =
     (let ds = takeWhile is_digit s
      in if ds = [] then None else Some (foldl (\<lambda>n c. 10 * n + digit_value c) 0 ds))"

text \<open>\<^verbatim>\<open>tagName.substring(1)\<close> drops the first character.\<close>

definition level_of :: "node \<Rightarrow> int option" where
  "level_of heading = parseInt (drop 1 (tagName heading))"

text \<open>
  The second loop. It starts at \<open>i = 1\<close>, so \<open>i - 1\<close> is an index of the array; the first
  failing \<^verbatim>\<open>expect\<close> ends it.
\<close>

function heading_loop :: "int list \<Rightarrow> nat \<Rightarrow> outcome" where
  "heading_loop headingLevels i =
     (if i < length headingLevels then
        (let diff = headingLevels ! i - headingLevels ! (i - 1)
         in case toBeLessThanOrEqual diff 1 of
              Inl f \<Rightarrow> Inl f
            | Inr u \<Rightarrow> heading_loop headingLevels (i + 1))
      else Pass)"
  by pat_completeness auto
termination
  by (relation "measure (\<lambda>(hs, i). length hs - i)") auto

definition check_heading_order :: "int list \<Rightarrow> outcome" where
  "check_heading_order headingLevels = heading_loop headingLevels 1"

text \<open>
  The fragment on a page. Every heading's level is a number (lemma \<open>level_of_heading\<close>
  below), so the \<^verbatim>\<open>NaN\<close> branch, where the comparison would fail, is never taken.
\<close>

definition headingLevels :: "node \<Rightarrow> int option list" where
  "headingLevels page = map level_of (allHeadings page)"

definition heading_hierarchy :: "node \<Rightarrow> outcome" where
  "heading_hierarchy page =
     (case those (headingLevels page) of
        None \<Rightarrow> Inl ReceivedNaN
      | Some levels \<Rightarrow> check_heading_order levels)"

section \<open>Matchers on locators\<close>

text \<open>
  \<^verbatim>\<open>expect(locator).toHaveCount(n)\<close> counts the elements the locator resolves to. The
  other locator matchers are strict: they need the locator to resolve to one element, and
  throw a strict mode violation when it resolves to several.
\<close>

definition toHaveCount :: "node list \<Rightarrow> nat \<Rightarrow> outcome" where
  "toHaveCount els expected =
     (if length els = expected then Pass else Inl (CountMismatch expected (length els)))"

text \<open>
  \<^verbatim>\<open>expect(locator).toContainText(expected)\<close> with a string: the element's text contains
  it. White space is taken as normalised already, in the text and in the expected string
  (the literals of the suite hold single spaces only).
\<close>

definition toContainText :: "node list \<Rightarrow> string \<Rightarrow> outcome" where
  "toContainText els expected =
     (case els of
        [] \<Rightarrow> Inl NotFound
      | [e] \<Rightarrow>
          if str_includes (textContent e) expected then Pass
          else Inl (TextMismatch expected (textContent e))
      | e # e' # rest \<Rightarrow> Inl (StrictModeViolation (length els)))"

definition toBeAttached :: "node list \<Rightarrow> outcome" where
  "toBeAttached els =
     (case els of
        [] \<Rightarrow> Inl NotFound
      | [e] \<Rightarrow> Pass
      | e # e' # rest \<Rightarrow> Inl (StrictModeViolation (length els)))"

text \<open>
  \<^verbatim>\<open>locator.nth(i)\<close> resolves to the element at index \<open>i\<close>, or to none. A locator
  relative to a locator searches below each element of the scope; the suite applies it to
  scopes of at most one element.
\<close>

definition nth_of :: "node list \<Rightarrow> nat \<Rightarrow> node list" where
  "nth_of els i = (if i < length els then [els ! i] else [])"

definition locator_of :: "node list \<Rightarrow> selector \<Rightarrow> node list" where
  "locator_of scope sel = concat (map (\<lambda>e. locator_in e sel) scope)"

section \<open>Matchers on values\<close>

text \<open>
  \<^verbatim>\<open>expect(v).toContain(s)\<close> on a string is the substring test, and throws on
  \<^verbatim>\<open>null\<close> and \<^verbatim>\<open>undefined\<close>. \<^verbatim>\<open>expect(v).toBe(s)\<close> is identity.
  \<^verbatim>\<open>expect(v).toBeDefined()\<close> fails on \<^verbatim>\<open>undefined\<close> only.
\<close>

definition toContain :: "js_value \<Rightarrow> string \<Rightarrow> outcome" where
  "toContain received expected =
     (case received of
        Str r \<Rightarrow> if str_includes r expected then Pass else Inl (NotContaining received expected)
      | Null \<Rightarrow> Inl (NotContaining received expected)
      | Undefined \<Rightarrow> Inl (NotContaining received expected))"

definition toBe :: "js_value \<Rightarrow> string \<Rightarrow> outcome" where
  "toBe received expected =
     (if received = Str expected then Pass else Inl (NotEqual received expected))"

definition toBeDefined :: "js_value \<Rightarrow> outcome" where
  "toBeDefined received = (if received = Undefined then Inl NotDefined else Pass)"

definition toBeTruthy :: "bool \<Rightarrow> outcome" where
  "toBeTruthy received = (if received then Pass else Inl NotTruthy)"

section \<open>Navigation items in order\<close>

text \<open>
  \<^verbatim>\<open>
  const navItems = navList.locator('li.nav__item')
  await expect(navItems).toHaveCount(4)
  const navLinks = ['Home', 'Services', 'About', 'Contact']
  for (let i = 0; i < navLinks.length; i++) {
    const link = navItems.nth(i).locator('a')
    await expect(link).toContainText(navLinks[i])
  }
  \<close>
  The loop is written over any list of expected strings; the suite runs the same loop
  over the service titles, the legal links and the branch links.
\<close>

function navLinks_loop :: "node list \<Rightarrow> string list \<Rightarrow> nat \<Rightarrow> outcome" where
  "navLinks_loop navItems navLinks i =
     (if i < length navLinks then
        (let link = locator_of (nth_of navItems i) [[Tag ''A'']]
         in case toContainText link (navLinks ! i) of
              Inl f \<Rightarrow> Inl (AtNth i f)
            | Inr u \<Rightarrow> navLinks_loop navItems navLinks (i + 1))
      else Pass)"
  by pat_completeness auto
termination
  by (relation "measure (\<lambda>(items, expected, i). length expected - i)") auto

definition navLinks :: "string list" where
  "navLinks = [''Home'', ''Services'', ''About'', ''Contact'']"

definition nav_items_check :: "node \<Rightarrow> outcome" where
  "nav_items_check navList =
     (let navItems = locator_in navList [[Tag ''LI'', Class ''nav__item'']]
      in case toHaveCount navItems 4 of
           Inl f \<Rightarrow> Inl f
         | Inr u \<Rightarrow> navLinks_loop navItems navLinks 0)"

section \<open>Service cards\<close>

text \<open>
  \<^verbatim>\<open>
  const serviceCards = page.locator('.service-card')
  await expect(serviceCards).toHaveCount(4)
  \<close>
\<close>

definition serviceCards :: "node \<Rightarrow> node list" where
  "serviceCards page = locator page [[Class ''service-card'']]"

definition service_cards_count :: "node \<Rightarrow> outcome" where
  "service_cards_count page = toHaveCount (serviceCards page) 4"

section \<open>References of aria-labelledby\<close>

text \<open>
  \<^verbatim>\<open>
  const ariaLabelledby = await page.locator('[aria-labelledby]').all()
  expect(ariaLabelledby.length).toBeGreaterThan(0)
  for (const element of ariaLabelledby) {
    const labelId = await element.getAttribute('aria-labelledby')
    const labelElement = page.locator(`#${labelId}`)
    await expect(labelElement).toBeAttached()
  }
  \<close>
  The template literal turns the attribute's value into a string. The selector it builds
  is an id selector when the value is a CSS identifier (\<open>css_ident\<close>: a letter or an
  underscore, then letters, digits, hyphens and underscores); the statements below are
  about such values, as the page's are (\<^verbatim>\<open>hero-title\<close>, \<^verbatim>\<open>services-title\<close>).
\<close>

fun js_to_string :: "js_value \<Rightarrow> string" where
  "js_to_string (Str s) = s"
| "js_to_string Null = ''null''"
| "js_to_string Undefined = ''undefined''"

definition is_letter :: "char \<Rightarrow> bool" where
  "is_letter c =
     ((65 \<le> (of_char c :: nat) \<and> (of_char c :: nat) \<le> 90) \<or>
      (97 \<le> (of_char c :: nat) \<and> (of_char c :: nat) \<le> 122))"

definition is_ident_start :: "char \<Rightarrow> bool" where
  "is_ident_start c = (is_letter c \<or> c = CHR ''_'')"

definition is_ident_char :: "char \<Rightarrow> bool" where
  "is_ident_char c = (is_letter c \<or> is_digit c \<or> c = CHR ''_'' \<or> c = CHR ''-'')"

fun css_ident :: "string \<Rightarrow> bool" where
  "css_ident [] = False"
| "css_ident (c # cs) = (is_ident_start c \<and> list_all is_ident_char cs)"

fun labelledby_loop :: "node \<Rightarrow> node list \<Rightarrow> outcome" where
  "labelledby_loop page [] = Pass"
| "labelledby_loop page (element # rest) =
     (let labelId = getAttribute element ''aria-labelledby'';
          labelElement = locator page [[Id (js_to_string labelId)]]
      in case toBeAttached labelElement of
           Inl f \<Rightarrow> Inl f
         | Inr u \<Rightarrow> labelledby_loop page rest)"

definition ariaLabelledby :: "node \<Rightarrow> node list" where
  "ariaLabelledby page = locator page [[HasAttr ''aria-labelledby'']]"

definition aria_labelledby_check :: "node \<Rightarrow> outcome" where
  "aria_labelledby_check page =
     (case toBeGreaterThan (length (ariaLabelledby page)) 0 of
        Inl f \<Rightarrow> Inl f
      | Inr u \<Rightarrow> labelledby_loop page (ariaLabelledby page))"

text \<open>The elements of the page that carry a given id.\<close>

definition with_id :: "node \<Rightarrow> string \<Rightarrow> node list" where
  "with_id page i = filter (\<lambda>e. getAttribute e ''id'' = Str i) (elements_of page)"

section \<open>Links that open a new tab\<close>

text \<open>
  \<^verbatim>\<open>
  const externalLinks = await page.locator('a[target="_blank"]').all()
  for (const link of externalLinks) {
    const rel = await link.getAttribute('rel')
    expect(rel).toContain('noopener')
    expect(rel).toContain('noreferrer')
  }
  \<close>
\<close>

definition externalLinks :: "node \<Rightarrow> node list" where
  "externalLinks page = locator page [[Tag ''A'', AttrEqI ''target'' ''_blank'']]"

fun external_links_loop :: "node list \<Rightarrow> outcome" where
  "external_links_loop [] = Pass"
| "external_links_loop (link # rest) =
     (let rel = getAttribute link ''rel''
      in case toContain rel ''noopener'' of
           Inl f \<Rightarrow> Inl f
         | Inr u \<Rightarrow>
             (case toContain rel ''noreferrer'' of
                Inl f \<Rightarrow> Inl f
              | Inr u \<Rightarrow> external_links_loop rest))"

definition secure_external_links :: "node \<Rightarrow> outcome" where
  "secure_external_links page = external_links_loop (externalLinks page)"

text \<open>
  The social links, in the test of the navigation links:
  \<^verbatim>\<open>
  const socialLinks = page.locator('.footer__social-link')
  await expect(socialLinks).toHaveCount(4)
  for (let i = 0; i < expectedSocial.length; i++) {
    const link = socialLinks.nth(i)
    const href = await link.getAttribute('href')
    const ariaLabel = await link.getAttribute('aria-label')
    const target = await link.getAttribute('target')
    const rel = await link.getAttribute('rel')
    expect(href).toContain(expectedSocial[i].url)
    expect(ariaLabel).toContain(expectedSocial[i].platform)
    expect(target).toBe('_blank')
    expect(rel).toBe('noopener noreferrer')
  }
  \<close>
  Reading an attribute through a locator that resolves to no element fails.
\<close>

definition expectedSocial :: "(string \<times> string) list" where
  "expectedSocial =
     [(''Facebook'', ''facebook.com/wemabank''),
      (''Twitter'', ''twitter.com/wemabank''),
      (''LinkedIn'', ''linkedin.com/company/wema-bank-plc''),
      (''Instagram'', ''instagram.com/wemabank'')]"

definition social_link_checks :: "node \<Rightarrow> string \<times> string \<Rightarrow> outcome" where
  "social_link_checks link expected =
     (let href = getAttribute link ''href'';
          ariaLabel = getAttribute link ''aria-label'';
          target = getAttribute link ''target'';
          rel = getAttribute link ''rel''
      in case toContain href (snd expected) of
           Inl f \<Rightarrow> Inl f
         | Inr u \<Rightarrow>
       (case toContain ariaLabel (fst expected) of
           Inl f \<Rightarrow> Inl f
         | Inr u \<Rightarrow>
       (case toBe target ''_blank'' of
           Inl f \<Rightarrow> Inl f
         | Inr u \<Rightarrow> toBe rel ''noopener noreferrer'')))"

function social_loop :: "node list \<Rightarrow> (string \<times> string) list \<Rightarrow> nat \<Rightarrow> outcome" where
  "social_loop socialLinks expected i =
     (if i < length expected then
        (case nth_of socialLinks i of
           [] \<Rightarrow> Inl (AtNth i NotFound)
         | link # others \<Rightarrow>
             (case social_link_checks link (expected ! i) of
                Inl f \<Rightarrow> Inl f
              | Inr u \<Rightarrow> social_loop socialLinks expected (i + 1)))
      else Pass)"
  by pat_completeness auto
termination
  by (relation "measure (\<lambda>(links, expected, i). length expected - i)") auto

definition socialLinks :: "node \<Rightarrow> node list" where
  "socialLinks page = locator page [[Class ''footer__social-link'']]"

definition social_links_check :: "node \<Rightarrow> outcome" where
  "social_links_check page =
     (case toHaveCount (socialLinks page) 4 of
        Inl f \<Rightarrow> Inl f
      | Inr u \<Rightarrow> social_loop (socialLinks page) expectedSocial 0)"

text \<open>
  What the checks are compared with: the value of \<^verbatim>\<open>rel\<close> holds both words as parts
  of the string, or holds both as white-space separated tokens.
\<close>

definition rel_includes_both :: "node \<Rightarrow> bool" where
  "rel_includes_both link =
     (case getAttribute link ''rel'' of
        Str r \<Rightarrow> str_includes r ''noopener'' \<and> str_includes r ''noreferrer''
      | Null \<Rightarrow> False
      | Undefined \<Rightarrow> False)"

definition rel_has_both_tokens :: "node \<Rightarrow> bool" where
  "rel_has_both_tokens link =
     (case getAttribute link ''rel'' of
        Str r \<Rightarrow> ''noopener'' \<in> set (tokens r) \<and> ''noreferrer'' \<in> set (tokens r)
      | Null \<Rightarrow> False
      | Undefined \<Rightarrow> False)"

section \<open>Alternative text of images\<close>

text \<open>
  \<^verbatim>\<open>
  const images = await page.locator('img').all()
  expect(images.length).toBeGreaterThan(0)
  for (const img of images) {
    const alt = await img.getAttribute('alt')
    const ariaHidden = await img.getAttribute('aria-hidden')
    // Image should either have alt text or be marked as decorative
    if (ariaHidden !== 'true') {
      expect(alt).toBeDefined()
    }
  }
  \<close>
\<close>

definition images :: "node \<Rightarrow> node list" where
  "images page = locator page [[Tag ''IMG'']]"

fun images_loop :: "node list \<Rightarrow> outcome" where
  "images_loop [] = Pass"
| "images_loop (img # rest) =
     (let alt = getAttribute img ''alt'';
          ariaHidden = getAttribute img ''aria-hidden''
      in if ariaHidden \<noteq> Str ''true'' then
           (case toBeDefined alt of
              Inl f \<Rightarrow> Inl f
            | Inr u \<Rightarrow> images_loop rest)
         else images_loop rest)"

definition alt_text_check :: "node \<Rightarrow> outcome" where
  "alt_text_check page =
     (case toBeGreaterThan (length (images page)) 0 of
        Inl f \<Rightarrow> Inl f
      | Inr u \<Rightarrow> images_loop (images page))"

text \<open>
  The same requirement in the accessibility audit test, step 6:
  \<^verbatim>\<open>
  const images = await page.locator('img').all()
  for (const img of images) {
    const alt = await img.getAttribute('alt')
    const ariaHidden = await img.getAttribute('aria-hidden')
    expect(alt !== null || ariaHidden === 'true').toBeTruthy()
  }
  \<close>
\<close>

fun audit_images_loop :: "node list \<Rightarrow> outcome" where
  "audit_images_loop [] = Pass"
| "audit_images_loop (img # rest) =
     (let alt = getAttribute img ''alt'';
          ariaHidden = getAttribute img ''aria-hidden''
      in case toBeTruthy (alt \<noteq> Null \<or> ariaHidden = Str ''true'') of
           Inl f \<Rightarrow> Inl f
         | Inr u \<Rightarrow> audit_images_loop rest)"

definition audit_images_check :: "node \<Rightarrow> outcome" where
  "audit_images_check page = audit_images_loop (images page)"

text \<open>The requirement itself: the image is marked decorative or has an alt attribute.\<close>

definition decorative_or_alt :: "node \<Rightarrow> bool" where
  "decorative_or_alt img =
     (getAttribute img ''aria-hidden'' = Str ''true'' \<or> getAttribute img ''alt'' \<noteq> Null)"

section \<open>Example documents\<close>

text \<open>A navigation list whose links read Home, About, Services, Contact.\<close>

abbreviation link_at :: "node list \<Rightarrow> nat \<Rightarrow> node list" where
  "link_at navItems i \<equiv> locator_of (nth_of navItems i) [[Tag ''A'']]"

definition nav_item :: "string \<Rightarrow> node" where
  "nav_item label =
     Element ''LI'' [(''class'', ''nav__item'')] [Element ''A'' [(''href'', ''#'')] [Text label]]"

definition example_nav :: node where
  "example_nav =
     Element ''UL'' [(''role'', ''list'')]
       [nav_item ''Home'', nav_item ''About'', nav_item ''Services'', nav_item ''Contact'']"

text \<open>A page of \<open>n\<close> service cards.\<close>

definition service_card :: node where
  "service_card = Element ''ARTICLE'' [(''class'', ''service-card'')] []"

definition cards_page :: "nat \<Rightarrow> node" where
  "cards_page n = Element ''HTML'' [(''lang'', ''en'')] (replicate n service_card)"

text \<open>A hero section that refers to \<^verbatim>\<open>hero-title\<close>, and the headings that carry that id.\<close>

definition hero_section :: node where
  "hero_section =
     Element ''SECTION''
       [(''id'', ''home''), (''class'', ''hero''), (''aria-labelledby'', ''hero-title'')] []"

definition hero_title :: "string \<Rightarrow> node" where
  "hero_title t = Element t [(''id'', ''hero-title'')] [Text ''Welcome to Wema Bank'']"

definition hero_page :: "node list \<Rightarrow> node" where
  "hero_page titles = Element ''HTML'' [(''lang'', ''en'')] (hero_section # titles)"

text \<open>A link that opens a new tab, and a page with the four social links.\<close>

definition blank_link :: "string \<Rightarrow> node" where
  "blank_link rel =
     Element ''A''
       [(''href'', ''https://facebook.com/wemabank''), (''target'', ''_blank''), (''rel'', rel)]
       [Text ''Facebook'']"

definition social_link :: "string \<times> string \<Rightarrow> node" where
  "social_link expected =
     Element ''A''
       [(''class'', ''footer__social-link''), (''href'', snd expected),
        (''aria-label'', fst expected), (''target'', ''_blank''),
        (''rel'', ''noopener noreferrer'')] []"

definition social_page :: node where
  "social_page = Element ''HTML'' [(''lang'', ''en'')] (map social_link expectedSocial)"

text \<open>
  The four social links and, after them, a fifth link that opens a new tab, with the
  given value of \<^verbatim>\<open>rel\<close>.
\<close>

definition mixed_page :: "string \<Rightarrow> node" where
  "mixed_page rel =
     Element ''HTML'' [(''lang'', ''en'')] (map social_link expectedSocial @ [blank_link rel])"

text \<open>A page whose only image has neither \<^verbatim>\<open>alt\<close> nor \<^verbatim>\<open>aria-hidden\<close>.\<close>

definition no_alt_page :: node where
  "no_alt_page =
     Element ''HTML'' [(''lang'', ''en'')] [Element ''IMG'' [(''src'', ''logo.svg'')] []]"

section \<open>The heading order check\<close>

lemma heading_loop_pass:
  "heading_loop hs i = Pass \<longleftrightarrow>
     (\<forall>j. i \<le> j \<and> j < length hs \<longrightarrow> hs ! j - hs ! (j - 1) \<le> 1)"
proof (induction hs i rule: heading_loop.induct)
  case (1 hs i)
  show ?case
  proof (cases "i < length hs")
    case False
    then show ?thesis by (subst heading_loop.simps) simp
  next
    case inb: True
    show ?thesis
    proof (cases "hs ! i - hs ! (i - 1) \<le> 1")
      case False
      with inb have "heading_loop hs i \<noteq> Pass"
        by (subst heading_loop.simps) (simp add: toBeLessThanOrEqual_def)
      moreover from False inb
      have "\<not> (\<forall>j. i \<le> j \<and> j < length hs \<longrightarrow> hs ! j - hs ! (j - 1) \<le> 1)"
        by (intro notI) (erule allE [of _ i], simp)
      ultimately show ?thesis by blast
    next
      case ok: True
      with inb have step: "heading_loop hs i = heading_loop hs (i + 1)"
        by (subst heading_loop.simps) (simp add: toBeLessThanOrEqual_def)
      have ih: "heading_loop hs (i + 1) = Pass \<longleftrightarrow>
         (\<forall>j. i + 1 \<le> j \<and> j < length hs \<longrightarrow> hs ! j - hs ! (j - 1) \<le> 1)"
        using "1.IH" [OF inb refl, of "()"] ok by (simp add: toBeLessThanOrEqual_def)
      have "(\<forall>j. i \<le> j \<and> j < length hs \<longrightarrow> hs ! j - hs ! (j - 1) \<le> 1) \<longleftrightarrow>
            (\<forall>j. i + 1 \<le> j \<and> j < length hs \<longrightarrow> hs ! j - hs ! (j - 1) \<le> 1)"
      proof (intro iffI allI impI)
        fix j
        assume a: "\<forall>j. i + 1 \<le> j \<and> j < length hs \<longrightarrow> hs ! j - hs ! (j - 1) \<le> 1"
          and b: "i \<le> j \<and> j < length hs"
        show "hs ! j - hs ! (j - 1) \<le> 1"
        proof (cases "j = i")
          case True
          then show ?thesis using ok by simp
        next
          case False
          then show ?thesis using a b by simp
        qed
      qed simp
      with step ih show ?thesis by simp
    qed
  qed
qed

text \<open>A failing run stops at the first pair that rises by more than one, and reports it.\<close>

lemma heading_loop_fail:
  "heading_loop hs i = Inl f \<Longrightarrow>
     \<exists>j. i \<le> j \<and> j < length hs \<and> 1 < hs ! j - hs ! (j - 1) \<and>
         (\<forall>k. i \<le> k \<and> k < j \<longrightarrow> hs ! k - hs ! (k - 1) \<le> 1) \<and>
         f = NotLessOrEqual (hs ! j - hs ! (j - 1)) 1"
proof (induction hs i rule: heading_loop.induct)
  case (1 hs i)
  from "1.prems" have inb: "i < length hs"
    by (subst (asm) heading_loop.simps) (simp split: if_splits)
  show ?case
  proof (cases "hs ! i - hs ! (i - 1) \<le> 1")
    case False
    with inb "1.prems" have "f = NotLessOrEqual (hs ! i - hs ! (i - 1)) 1"
      by (subst (asm) heading_loop.simps) (simp add: toBeLessThanOrEqual_def)
    with False inb show ?thesis
      by (intro exI [of _ i]) simp
  next
    case ok: True
    with inb "1.prems" have "heading_loop hs (i + 1) = Inl f"
      by (subst (asm) heading_loop.simps) (simp add: toBeLessThanOrEqual_def)
    with "1.IH" [OF inb refl, of "()"] ok
    obtain j where j: "i + 1 \<le> j" "j < length hs" "1 < hs ! j - hs ! (j - 1)"
        "\<forall>k. i + 1 \<le> k \<and> k < j \<longrightarrow> hs ! k - hs ! (k - 1) \<le> 1"
        "f = NotLessOrEqual (hs ! j - hs ! (j - 1)) 1"
      by (auto simp: toBeLessThanOrEqual_def)
    have "\<forall>k. i \<le> k \<and> k < j \<longrightarrow> hs ! k - hs ! (k - 1) \<le> 1"
    proof (intro allI impI)
      fix k
      assume k: "i \<le> k \<and> k < j"
      show "hs ! k - hs ! (k - 1) \<le> 1"
      proof (cases "k = i")
        case True
        then show ?thesis using ok by simp
      next
        case False
        then show ?thesis using j(4) k by simp
      qed
    qed
    with j show ?thesis
      by (intro exI [of _ j]) simp
  qed
qed

text \<open>
  The levels read from the page are numbers between 1 and 6, one per heading in document
  order, so the check on a page is the check of that sequence.
\<close>

lemma level_of_heading:
  assumes "e \<in> set (allHeadings page)"
  shows "\<exists>n. level_of e = Some n \<and> 1 \<le> n \<and> n \<le> 6"
proof -
  from assms have "tagName e \<in> {''H1'', ''H2'', ''H3'', ''H4'', ''H5'', ''H6''}"
    by (auto simp: allHeadings_def locator_def matches_def heading_selector_def)
  then show ?thesis
    by (auto simp: level_of_def parseInt_def is_digit_def digit_value_def)
qed

lemma those_defined:
  "(\<forall>x \<in> set xs. \<exists>y. f x = Some y \<and> P y) \<Longrightarrow>
     \<exists>ys. those (map f xs) = Some ys \<and> length ys = length xs \<and> (\<forall>y \<in> set ys. P y)"
  by (induction xs) auto

lemma headingLevels_numbers:
  "\<exists>levels. those (headingLevels page) = Some levels \<and>
     length levels = length (allHeadings page) \<and> (\<forall>l \<in> set levels. 1 \<le> l \<and> l \<le> 6)"
  unfolding headingLevels_def
  by (rule those_defined) (simp add: level_of_heading)

lemma heading_hierarchy_levels:
  "\<exists>levels. those (headingLevels page) = Some levels \<and>
     heading_hierarchy page = check_heading_order levels"
  using headingLevels_numbers [of page] by (auto simp: heading_hierarchy_def)

text \<open>
  C1 (as amended). The check of a sequence of heading levels passes exactly when no
  adjacent pair rises by more than one; a level may fall by any amount. When it fails it
  reports the first such rise. The sequence 1, 2, 3, 2, 3 passes; the sequence
  1, 2, 3, 2, 4 fails, because its last step rises from 2 to 4; the sequence 1, 3 fails.
\<close>

theorem heading_order_skips:
  "(check_heading_order levels = Pass \<longleftrightarrow>
      (\<forall>i. 0 < i \<and> i < length levels \<longrightarrow> levels ! i - levels ! (i - 1) \<le> 1)) \<and>
   (\<forall>f. check_heading_order levels = Inl f \<longrightarrow>
      (\<exists>i. 0 < i \<and> i < length levels \<and> 1 < levels ! i - levels ! (i - 1) \<and>
           (\<forall>k. 0 < k \<and> k < i \<longrightarrow> levels ! k - levels ! (k - 1) \<le> 1) \<and>
           f = NotLessOrEqual (levels ! i - levels ! (i - 1)) 1)) \<and>
   check_heading_order [1, 2, 3, 2, 3] = Pass \<and>
   check_heading_order [1, 2, 3, 2, 4] = Inl (NotLessOrEqual 2 1) \<and>
   check_heading_order [1, 3] = Inl (NotLessOrEqual 2 1)"
proof (intro conjI allI impI)
  show "check_heading_order levels = Pass \<longleftrightarrow>
      (\<forall>i. 0 < i \<and> i < length levels \<longrightarrow> levels ! i - levels ! (i - 1) \<le> 1)"
    unfolding check_heading_order_def heading_loop_pass
    by (simp add: Suc_le_eq del: heading_loop.simps)
next
  fix f
  assume "check_heading_order levels = Inl f"
  then have "heading_loop levels 1 = Inl f" by (simp add: check_heading_order_def)
  from heading_loop_fail [OF this]
  show "\<exists>i. 0 < i \<and> i < length levels \<and> 1 < levels ! i - levels ! (i - 1) \<and>
           (\<forall>k. 0 < k \<and> k < i \<longrightarrow> levels ! k - levels ! (k - 1) \<le> 1) \<and>
           f = NotLessOrEqual (levels ! i - levels ! (i - 1)) 1"
    by (simp add: Suc_le_eq)
next
  show "check_heading_order [1, 2, 3, 2, 3] = Pass"
    by (simp add: check_heading_order_def toBeLessThanOrEqual_def)
next
  show "check_heading_order [1, 2, 3, 2, 4] = Inl (NotLessOrEqual 2 1)"
    by (simp add: check_heading_order_def toBeLessThanOrEqual_def)
next
  show "check_heading_order [1, 3] = Inl (NotLessOrEqual 2 1)"
    by (simp add: check_heading_order_def toBeLessThanOrEqual_def)
qed

text \<open>At 3, 1, 2 the levels fall by two and rise by one: the check passes.\<close>

theorem heading_order_skips_witness:
  "check_heading_order [3, 1, 2] = Pass"
proof -
  have "\<forall>i. 0 < i \<and> i < length [3, 1, 2::int] \<longrightarrow>
          [3, 1, 2::int] ! i - [3, 1, 2] ! (i - 1) \<le> 1"
    by (simp add: nth_Cons' less_Suc_eq)
  with heading_order_skips [of "[3, 1, 2]"] show ?thesis by blast
qed

text \<open>
  The sequence 1, 2, 3, 2, 4 does not pass: the difference of its last pair is 2.
\<close>

theorem heading_order_example_counterexample:
  "check_heading_order [1, 2, 3, 2, 4] \<noteq> Pass"
  by (simp add: check_heading_order_def toBeLessThanOrEqual_def)

section \<open>The ordered navigation items\<close>

lemma navLinks_loop_step:
  "i < length expected \<Longrightarrow> toContainText (link_at items i) (expected ! i) = Pass \<Longrightarrow>
     navLinks_loop items expected i = navLinks_loop items expected (i + 1)"
  by (subst navLinks_loop.simps) simp

lemma navLinks_loop_stop:
  "i < length expected \<Longrightarrow> toContainText (link_at items i) (expected ! i) = Inl f \<Longrightarrow>
     navLinks_loop items expected i = Inl (AtNth i f)"
  by (subst navLinks_loop.simps) simp

lemma navLinks_loop_end:
  "\<not> i < length expected \<Longrightarrow> navLinks_loop items expected i = Pass"
  by (subst navLinks_loop.simps) simp

lemma navLinks_loop_pass:
  "navLinks_loop items expected i = Pass \<longleftrightarrow>
     (\<forall>k. i \<le> k \<and> k < length expected \<longrightarrow>
        toContainText (link_at items k) (expected ! k) = Pass)"
proof (induction items expected i rule: navLinks_loop.induct)
  case (1 items expected i)
  show ?case
  proof (cases "i < length expected")
    case False
    then show ?thesis by (auto simp: navLinks_loop_end)
  next
    case inb: True
    show ?thesis
    proof (cases "toContainText (link_at items i) (expected ! i)")
      case (Inl f)
      with inb have "navLinks_loop items expected i \<noteq> Pass"
        by (simp add: navLinks_loop_stop)
      moreover from Inl inb have "\<not> (\<forall>k. i \<le> k \<and> k < length expected \<longrightarrow>
          toContainText (link_at items k) (expected ! k) = Pass)"
        by (intro notI) (erule allE [of _ i], simp)
      ultimately show ?thesis by blast
    next
      case (Inr u)
      then have ok: "toContainText (link_at items i) (expected ! i) = Pass" by simp
      have ih: "navLinks_loop items expected (i + 1) = Pass \<longleftrightarrow>
          (\<forall>k. i + 1 \<le> k \<and> k < length expected \<longrightarrow>
             toContainText (link_at items k) (expected ! k) = Pass)"
        using "1.IH" [OF inb refl ok] .
      have "(\<forall>k. i \<le> k \<and> k < length expected \<longrightarrow>
               toContainText (link_at items k) (expected ! k) = Pass) \<longleftrightarrow>
            (\<forall>k. i + 1 \<le> k \<and> k < length expected \<longrightarrow>
               toContainText (link_at items k) (expected ! k) = Pass)"
      proof (intro iffI allI impI)
        fix k
        assume a: "\<forall>k. i + 1 \<le> k \<and> k < length expected \<longrightarrow>
               toContainText (link_at items k) (expected ! k) = Pass"
          and b: "i \<le> k \<and> k < length expected"
        show "toContainText (link_at items k) (expected ! k) = Pass"
        proof (cases "k = i")
          case True
          then show ?thesis using ok by simp
        next
          case False
          then show ?thesis using a b by simp
        qed
      qed simp
      with ih navLinks_loop_step [OF inb ok] show ?thesis by simp
    qed
  qed
qed

text \<open>The loop stops at the first index whose assertion fails, and reports that index.\<close>

lemma navLinks_loop_first:
  "i \<le> j \<Longrightarrow> j < length expected \<Longrightarrow>
   (\<forall>k. i \<le> k \<and> k < j \<longrightarrow> toContainText (link_at items k) (expected ! k) = Pass) \<Longrightarrow>
   toContainText (link_at items j) (expected ! j) = Inl f \<Longrightarrow>
   navLinks_loop items expected i = Inl (AtNth j f)"
proof (induction "j - i" arbitrary: i)
  case 0
  then have "i = j" by simp
  with 0 show ?case by (simp add: navLinks_loop_stop)
next
  case (Suc d)
  then have lt: "i < j" by simp
  with Suc.prems have inb: "i < length expected" by simp
  from Suc.prems lt have ok: "toContainText (link_at items i) (expected ! i) = Pass" by simp
  have "navLinks_loop items expected (i + 1) = Inl (AtNth j f)"
  proof (rule Suc.hyps(1))
    show "d = j - (i + 1)" using Suc.hyps(2) by simp
    show "i + 1 \<le> j" using lt by simp
    show "j < length expected" by (rule Suc.prems(2))
    show "\<forall>k. i + 1 \<le> k \<and> k < j \<longrightarrow> toContainText (link_at items k) (expected ! k) = Pass"
      using Suc.prems(3) by simp
    show "toContainText (link_at items j) (expected ! j) = Inl f" by (rule Suc.prems(4))
  qed
  with navLinks_loop_step [OF inb ok] show ?case by simp
qed

lemma example_nav_items:
  "locator_in example_nav [[Tag ''LI'', Class ''nav__item'']] =
     [nav_item ''Home'', nav_item ''About'', nav_item ''Services'', nav_item ''Contact'']"
  by (simp add: locator_in_def descendants_def example_nav_def nav_item_def matches_def
      tokens_def is_space_def)

lemma link_at_nav_item:
  "i < length labels \<Longrightarrow>
     link_at (map nav_item labels) i = [Element ''A'' [(''href'', ''#'')] [Text (labels ! i)]]"
  by (simp add: nth_of_def locator_of_def locator_in_def descendants_def nav_item_def
      matches_def)

lemma example_nav_loop:
  "navLinks_loop (map nav_item [''Home'', ''About'', ''Services'', ''Contact'']) navLinks 0 =
     Inl (AtNth 1 (TextMismatch ''Services'' ''About''))"
proof -
  let ?labels = "[''Home'', ''About'', ''Services'', ''Contact'']"
  have l0: "link_at (map nav_item ?labels) 0 = [Element ''A'' [(''href'', ''#'')] [Text ''Home'']]"
    using link_at_nav_item [of 0 ?labels] by simp
  have l1: "link_at (map nav_item ?labels) 1 = [Element ''A'' [(''href'', ''#'')] [Text ''About'']]"
    using link_at_nav_item [of 1 ?labels] by simp
  show ?thesis
  proof (rule navLinks_loop_first)
    show "(0::nat) \<le> 1" by simp
    show "1 < length navLinks" by (simp add: navLinks_def)
    show "\<forall>k. 0 \<le> k \<and> k < 1 \<longrightarrow>
        toContainText (link_at (map nav_item ?labels) k) (navLinks ! k) = Pass"
      using l0 by (simp add: navLinks_def toContainText_def)
    show "toContainText (link_at (map nav_item ?labels) 1) (navLinks ! 1) =
        Inl (TextMismatch ''Services'' ''About'')"
      using l1 by (simp add: navLinks_def toContainText_def)
  qed
qed

text \<open>
  C3. The loop pairs the navigation items, in document order, with the expected strings
  and passes exactly when every item's link contains its string. It fails at the first
  index \<open>j\<close> whose assertion fails and reports that index; when the link at \<open>j\<close> is there
  and does not contain the expected string, the failure holds the index, the expected
  string and the text found. With Home, Services, About, Contact expected and items that
  read Home, About, Services, Contact, it fails at index 1 with Services expected and
  About found.
\<close>

theorem navLinks_loop_first_mismatch:
  "(navLinks_loop items expected 0 = Pass \<longleftrightarrow>
      (\<forall>k. k < length expected \<longrightarrow>
         toContainText (link_at items k) (expected ! k) = Pass)) \<and>
   (j < length expected \<and>
    (\<forall>k. k < j \<longrightarrow> toContainText (link_at items k) (expected ! k) = Pass) \<and>
    toContainText (link_at items j) (expected ! j) = Inl f \<longrightarrow>
      navLinks_loop items expected 0 = Inl (AtNth j f)) \<and>
   (j < length expected \<and>
    (\<forall>k. k < j \<longrightarrow> toContainText (link_at items k) (expected ! k) = Pass) \<and>
    link_at items j = [a] \<and> \<not> str_includes (textContent a) (expected ! j) \<longrightarrow>
      navLinks_loop items expected 0 =
        Inl (AtNth j (TextMismatch (expected ! j) (textContent a)))) \<and>
   nav_items_check example_nav = Inl (AtNth 1 (TextMismatch ''Services'' ''About''))"
proof (intro conjI impI)
  show "navLinks_loop items expected 0 = Pass \<longleftrightarrow>
      (\<forall>k. k < length expected \<longrightarrow> toContainText (link_at items k) (expected ! k) = Pass)"
    unfolding navLinks_loop_pass by simp
next
  assume h: "j < length expected \<and>
    (\<forall>k. k < j \<longrightarrow> toContainText (link_at items k) (expected ! k) = Pass) \<and>
    toContainText (link_at items j) (expected ! j) = Inl f"
  then show "navLinks_loop items expected 0 = Inl (AtNth j f)"
    by (intro navLinks_loop_first) simp_all
next
  assume h: "j < length expected \<and>
    (\<forall>k. k < j \<longrightarrow> toContainText (link_at items k) (expected ! k) = Pass) \<and>
    link_at items j = [a] \<and> \<not> str_includes (textContent a) (expected ! j)"
  then have "toContainText (link_at items j) (expected ! j) =
      Inl (TextMismatch (expected ! j) (textContent a))"
    by (simp add: toContainText_def)
  with h show "navLinks_loop items expected 0 =
      Inl (AtNth j (TextMismatch (expected ! j) (textContent a)))"
    by (intro navLinks_loop_first) simp_all
next
  show "nav_items_check example_nav = Inl (AtNth 1 (TextMismatch ''Services'' ''About''))"
    using example_nav_loop
    by (simp add: nav_items_check_def example_nav_items toHaveCount_def
        del: navLinks_loop.simps)
qed

text \<open>
  The theorem at the items Home, About, Services, Contact and the index 1: the link at
  index 0 contains Home, the link at index 1 reads About and does not contain Services.
\<close>

theorem navLinks_loop_first_mismatch_witness:
  "navLinks_loop (map nav_item [''Home'', ''About'', ''Services'', ''Contact''])
     [''Home'', ''Services'', ''About'', ''Contact''] 0 =
     Inl (AtNth 1 (TextMismatch ''Services'' ''About''))"
proof -
  let ?labels = "[''Home'', ''About'', ''Services'', ''Contact'']"
  let ?expected = "[''Home'', ''Services'', ''About'', ''Contact'']"
  let ?a = "Element ''A'' [(''href'', ''#'')] [Text ''About'']"
  have l0: "link_at (map nav_item ?labels) 0 = [Element ''A'' [(''href'', ''#'')] [Text ''Home'']]"
    using link_at_nav_item [of 0 ?labels] by simp
  have l1: "link_at (map nav_item ?labels) 1 = [?a]"
    using link_at_nav_item [of 1 ?labels] by simp
  have before: "\<forall>k. k < 1 \<longrightarrow>
      toContainText (link_at (map nav_item ?labels) k) (?expected ! k) = Pass"
    using l0 by (simp add: toContainText_def)
  have differs: "\<not> str_includes (textContent ?a) (?expected ! 1)"
    by simp
  have "(1::nat) < length ?expected" by simp
  with before l1 differs
    navLinks_loop_first_mismatch [of "map nav_item ?labels" ?expected 1 _ ?a]
  have "navLinks_loop (map nav_item ?labels) ?expected 0 =
      Inl (AtNth 1 (TextMismatch (?expected ! 1) (textContent ?a)))"
    by blast
  then show ?thesis by (simp del: navLinks_loop.simps)
qed

section \<open>The count of service cards\<close>

lemma service_card_matches: "matches [[Class ''service-card'']] service_card"
  by (simp add: matches_def service_card_def tokens_def is_space_def)

lemma serviceCards_cards_page: "serviceCards (cards_page n) = replicate n service_card"
proof -
  have "concat (map elements_of (replicate n service_card)) = replicate n service_card"
    by (induction n) (simp_all add: service_card_def)
  moreover have "\<not> matches [[Class ''service-card'']] (Element ''HTML'' [(''lang'', ''en'')] cs)"
    for cs
    by (simp add: matches_def)
  ultimately show ?thesis
    using service_card_matches
    by (simp add: serviceCards_def locator_def cards_page_def)
qed

text \<open>
  C4. The count assertion with the expected count 4 passes exactly on a page where the
  selector matches 4 elements; on any other page it fails and the failure holds the
  count found, 3 on a page with 3 matches and 5 on a page with 5.
\<close>

theorem service_cards_count_exact:
  "(service_cards_count page = Pass \<longleftrightarrow> length (serviceCards page) = 4) \<and>
   (length (serviceCards page) \<noteq> 4 \<longrightarrow>
      service_cards_count page = Inl (CountMismatch 4 (length (serviceCards page)))) \<and>
   (length (serviceCards page) = 3 \<longrightarrow> service_cards_count page = Inl (CountMismatch 4 3)) \<and>
   (length (serviceCards page) = 5 \<longrightarrow> service_cards_count page = Inl (CountMismatch 4 5))"
  by (simp add: service_cards_count_def toHaveCount_def)

text \<open>Pages with four, three and five service cards.\<close>

theorem service_cards_count_exact_witness:
  "service_cards_count (cards_page 4) = Pass \<and>
   service_cards_count (cards_page 3) = Inl (CountMismatch 4 3) \<and>
   service_cards_count (cards_page 5) = Inl (CountMismatch 4 5)"
  using service_cards_count_exact [of "cards_page 4"]
    service_cards_count_exact [of "cards_page 3"]
    service_cards_count_exact [of "cards_page 5"]
  by (simp add: serviceCards_cards_page)

section \<open>The references of aria-labelledby\<close>

lemma locator_Id: "locator page [[Id i]] = with_id page i"
  by (simp add: locator_def with_id_def matches_def cong: filter_cong)

lemma toBeAttached_length:
  "toBeAttached els =
     (if length els = 0 then Inl NotFound
      else if length els = 1 then Pass
      else Inl (StrictModeViolation (length els)))"
  by (cases els rule: list.exhaust; simp add: toBeAttached_def split: list.splits)

text \<open>The whole loop passes exactly when every reference resolves to one element.\<close>

lemma labelledby_loop_pass:
  "labelledby_loop page els = Pass \<longleftrightarrow>
     list_all (\<lambda>e. length (with_id page (js_to_string (getAttribute e ''aria-labelledby''))) = 1)
       els"
  by (induction els) (auto simp: locator_Id toBeAttached_length Let_def)

lemma css_ident_hero_title: "css_ident ''hero-title''"
  by (simp add: is_ident_start_def is_ident_char_def is_letter_def is_digit_def)

lemma hero_page_ids:
  "with_id (hero_page []) ''hero-title'' = [] \<and>
   with_id (hero_page [hero_title ''H1'']) ''hero-title'' = [hero_title ''H1''] \<and>
   with_id (hero_page [hero_title ''H1'', hero_title ''H2'']) ''hero-title'' =
     [hero_title ''H1'', hero_title ''H2'']"
  by (simp add: with_id_def hero_page_def hero_section_def hero_title_def)

lemma hero_page_refs:
  "ariaLabelledby (hero_page [hero_title ''H1'', hero_title ''H2'']) = [hero_section]"
  by (simp add: ariaLabelledby_def locator_def matches_def hero_page_def hero_section_def
      hero_title_def)

lemma hero_section_ref: "getAttribute hero_section ''aria-labelledby'' = Str ''hero-title''"
  by (simp add: hero_section_def)

text \<open>
  C5 (as amended). For an element whose \<^verbatim>\<open>aria-labelledby\<close> names an id, the check
  fails when no element of the document has that id, passes when exactly one element has
  it, and fails with a strict mode violation when two or more elements share it: the
  assertion on the locator needs one element and does not take the first of several.
\<close>

theorem aria_reference_resolution:
  assumes "getAttribute element ''aria-labelledby'' = Str labelId" and "css_ident labelId"
  shows "(length (with_id page labelId) = 0 \<longrightarrow>
            labelledby_loop page [element] = Inl NotFound) \<and>
         (length (with_id page labelId) = 1 \<longrightarrow>
            labelledby_loop page [element] = Pass) \<and>
         (2 \<le> length (with_id page labelId) \<longrightarrow>
            labelledby_loop page [element] =
              Inl (StrictModeViolation (length (with_id page labelId))))"
  using assms(1) by (auto simp: locator_Id toBeAttached_length Let_def)

text \<open>The hero section on pages with no, one and two elements of the id it names.\<close>

theorem aria_reference_resolution_witness:
  "labelledby_loop (hero_page []) [hero_section] = Inl NotFound \<and>
   labelledby_loop (hero_page [hero_title ''H1'']) [hero_section] = Pass \<and>
   labelledby_loop (hero_page [hero_title ''H1'', hero_title ''H2'']) [hero_section] =
     Inl (StrictModeViolation 2)"
  using aria_reference_resolution [OF hero_section_ref css_ident_hero_title, of "hero_page []"]
    aria_reference_resolution [OF hero_section_ref css_ident_hero_title,
      of "hero_page [hero_title ''H1'']"]
    aria_reference_resolution [OF hero_section_ref css_ident_hero_title,
      of "hero_page [hero_title ''H1'', hero_title ''H2'']"]
  by (simp add: hero_page_ids)

text \<open>
  Two headings share the id \<^verbatim>\<open>hero-title\<close> that the hero section names: the test does
  not pass.
\<close>

theorem aria_duplicate_id_counterexample:
  "length (with_id (hero_page [hero_title ''H1'', hero_title ''H2'']) ''hero-title'') = 2 \<and>
   aria_labelledby_check (hero_page [hero_title ''H1'', hero_title ''H2'']) \<noteq> Pass"
  by (simp add: aria_labelledby_check_def hero_page_refs toBeGreaterThan_def locator_Id
      hero_page_ids toBeAttached_def hero_section_ref)

section \<open>The rel attribute of links that open a new tab\<close>

lemma str_includes_sublist: "str_includes s sub \<longleftrightarrow> sublist sub s"
  by (induction s) (simp_all add: sublist_Cons_right)

lemma split_acc_sublist:
  "t \<in> set (split_acc cur s) \<Longrightarrow> sublist t (cur @ s)"
proof (induction s arbitrary: cur)
  case Nil
  then show ?case by (simp split: if_splits)
next
  case (Cons c cs)
  show ?case
  proof (cases "is_space c")
    case False
    with Cons.prems have "t \<in> set (split_acc (cur @ [c]) cs)" by simp
    then have "sublist t ((cur @ [c]) @ cs)" by (rule Cons.IH)
    then show ?thesis by simp
  next
    case True
    with Cons.prems have "t = cur \<or> t \<in> set (split_acc [] cs)"
      by (simp split: if_splits)
    then show ?thesis
    proof
      assume "t = cur"
      then show ?thesis by simp
    next
      assume "t \<in> set (split_acc [] cs)"
      then have "sublist t ([] @ cs)" by (rule Cons.IH)
      then obtain ps ss where "cs = ps @ t @ ss" by (auto simp: sublist_def)
      then have "cur @ c # cs = (cur @ c # ps) @ t @ ss" by simp
      then show ?thesis unfolding sublist_def by blast
    qed
  qed
qed

text \<open>A token of a string is a part of it: the token reading asks for more.\<close>

lemma token_included: "t \<in> set (tokens r) \<Longrightarrow> str_includes r t"
  using split_acc_sublist [of t "[]" r] by (simp add: tokens_def str_includes_sublist)

lemma tokens_imply_includes: "rel_has_both_tokens link \<Longrightarrow> rel_includes_both link"
  by (auto simp: rel_has_both_tokens_def rel_includes_both_def token_included
      split: js_value.splits)

lemma external_links_loop_pass:
  "external_links_loop links = Pass \<longleftrightarrow> list_all rel_includes_both links"
  by (induction links)
    (auto simp: toContain_def rel_includes_both_def Let_def split: js_value.splits)

lemma social_link_checks_pass:
  "social_link_checks link expected = Pass \<Longrightarrow>
     getAttribute link ''target'' = Str ''_blank'' \<and>
     getAttribute link ''rel'' = Str ''noopener noreferrer''"
  by (auto simp: social_link_checks_def toBe_def Let_def split: sum.splits if_splits)

lemma social_loop_pass:
  "social_loop links expected i = Pass \<Longrightarrow> i \<le> k \<Longrightarrow> k < length expected \<Longrightarrow>
     k < length links \<and> social_link_checks (links ! k) (expected ! k) = Pass"
proof (induction links expected i rule: social_loop.induct)
  case (1 links expected i)
  from "1.prems" have inb: "i < length expected" by simp
  from "1.prems"(1) inb have here: "i < length links"
    by (subst (asm) social_loop.simps) (simp add: nth_of_def split: if_splits)
  then have nth: "nth_of links i = [links ! i]" by (simp add: nth_of_def)
  from "1.prems"(1) inb nth have ok: "social_link_checks (links ! i) (expected ! i) = Pass"
    by (subst (asm) social_loop.simps) (simp split: sum.splits)
  from "1.prems"(1) inb nth ok have rest: "social_loop links expected (i + 1) = Pass"
    by (subst (asm) social_loop.simps) simp
  show ?case
  proof (cases "k = i")
    case True
    with here ok show ?thesis by simp
  next
    case False
    with "1.prems" have "i + 1 \<le> k" by simp
    with "1.IH" [OF inb nth _ rest] ok "1.prems"(3) show ?thesis by simp
  qed
qed

lemma tokens_rel: "tokens ''noopener noreferrer'' = [''noopener'', ''noreferrer'']"
  by (simp add: tokens_def is_space_def)

lemma social_links_tokens:
  assumes "social_links_check page = Pass"
  shows "list_all (\<lambda>l. getAttribute l ''target'' = Str ''_blank'' \<and> rel_has_both_tokens l)
           (socialLinks page)"
proof -
  from assms have len: "length (socialLinks page) = 4"
    by (simp add: social_links_check_def toHaveCount_def split: if_splits)
  with assms have loop: "social_loop (socialLinks page) expectedSocial 0 = Pass"
    by (simp add: social_links_check_def toHaveCount_def)
  have "getAttribute (socialLinks page ! k) ''target'' = Str ''_blank'' \<and>
        rel_has_both_tokens (socialLinks page ! k)" if "k < length (socialLinks page)" for k
  proof -
    from that len have "k < length expectedSocial" by (simp add: expectedSocial_def)
    with social_loop_pass [OF loop, of k]
    have "social_link_checks (socialLinks page ! k) (expectedSocial ! k) = Pass" by simp
    then have "getAttribute (socialLinks page ! k) ''target'' = Str ''_blank'' \<and>
      getAttribute (socialLinks page ! k) ''rel'' = Str ''noopener noreferrer''"
      by (rule social_link_checks_pass)
    then show ?thesis by (simp add: rel_has_both_tokens_def tokens_rel)
  qed
  then show ?thesis by (simp add: list_all_length)
qed

lemma socialLinks_social_page: "socialLinks social_page = map social_link expectedSocial"
  by (simp add: socialLinks_def locator_def matches_def social_page_def social_link_def
      expectedSocial_def tokens_def is_space_def)

lemma externalLinks_social_page: "externalLinks social_page = map social_link expectedSocial"
  by (simp add: externalLinks_def locator_def matches_def social_page_def social_link_def
      expectedSocial_def ascii_lower_def)

lemma socialLinks_mixed_page: "socialLinks (mixed_page rel) = map social_link expectedSocial"
  by (simp add: socialLinks_def locator_def matches_def mixed_page_def social_link_def
      blank_link_def expectedSocial_def tokens_def is_space_def)

lemma externalLinks_mixed_page:
  "externalLinks (mixed_page rel) = map social_link expectedSocial @ [blank_link rel]"
  by (simp add: externalLinks_def locator_def matches_def mixed_page_def social_link_def
      blank_link_def expectedSocial_def ascii_lower_def)

lemma social_page_includes: "list_all rel_includes_both (externalLinks social_page)"
  by (simp add: externalLinks_social_page)
    (simp add: expectedSocial_def rel_includes_both_def social_link_def)

lemma social_page_passes: "social_links_check social_page = Pass"
  by (simp add: social_links_check_def socialLinks_social_page toHaveCount_def)
    (simp add: expectedSocial_def nth_of_def social_link_checks_def social_link_def
      toContain_def toBe_def)

text \<open>
  C9 (as amended). The test of the external links passes exactly when every anchor with
  \<^verbatim>\<open>target="_blank"\<close>, however many there are, has a \<^verbatim>\<open>rel\<close> attribute whose value
  contains \<^verbatim>\<open>noopener\<close> and contains \<^verbatim>\<open>noreferrer\<close> as parts of the string. When the
  test of the social links passes, each of the four social links has
  \<^verbatim>\<open>target="_blank"\<close> and the value \<^verbatim>\<open>noopener noreferrer\<close>, which holds both tokens.
\<close>

theorem secure_external_links_substrings:
  "(secure_external_links page = Pass \<longleftrightarrow>
      list_all rel_includes_both (externalLinks page)) \<and>
   (social_links_check page = Pass \<longrightarrow>
      list_all (\<lambda>l. getAttribute l ''target'' = Str ''_blank'' \<and> rel_has_both_tokens l)
        (socialLinks page))"
  by (simp add: secure_external_links_def external_links_loop_pass social_links_tokens)

text \<open>The page of the four social links: both tests pass.\<close>

theorem secure_external_links_substrings_witness:
  "secure_external_links social_page = Pass \<and>
   list_all (\<lambda>l. getAttribute l ''target'' = Str ''_blank'' \<and> rel_has_both_tokens l)
     (socialLinks social_page)"
  using secure_external_links_substrings [of social_page] social_page_includes
    social_page_passes
  by blast

text \<open>
  The four social links and a fifth link with \<^verbatim>\<open>rel="xnoopener noreferrer"\<close>: the
  test of the external links and the test of the social links pass, and \<^verbatim>\<open>noopener\<close>
  is not a token of the fifth link's value.
\<close>

theorem external_links_tokens_counterexample:
  "secure_external_links (mixed_page ''xnoopener noreferrer'') = Pass \<and>
   social_links_check (mixed_page ''xnoopener noreferrer'') = Pass \<and>
   \<not> list_all rel_has_both_tokens (externalLinks (mixed_page ''xnoopener noreferrer''))"
proof (intro conjI)
  have "list_all rel_includes_both (externalLinks (mixed_page ''xnoopener noreferrer''))"
    by (simp add: externalLinks_mixed_page)
      (simp add: expectedSocial_def rel_includes_both_def social_link_def blank_link_def)
  then show "secure_external_links (mixed_page ''xnoopener noreferrer'') = Pass"
    by (simp add: secure_external_links_def external_links_loop_pass)
next
  show "social_links_check (mixed_page ''xnoopener noreferrer'') = Pass"
    by (simp add: social_links_check_def socialLinks_mixed_page toHaveCount_def)
      (simp add: expectedSocial_def nth_of_def social_link_checks_def social_link_def
        toContain_def toBe_def)
next
  show "\<not> list_all rel_has_both_tokens (externalLinks (mixed_page ''xnoopener noreferrer''))"
    by (simp add: externalLinks_mixed_page)
      (simp add: blank_link_def rel_has_both_tokens_def tokens_def is_space_def)
qed

section \<open>The alternative text of images\<close>

lemma getAttribute_not_undefined: "getAttribute e name \<noteq> Undefined"
  by (cases e) (simp_all split: option.splits)

text \<open>
  An attribute read is never \<^verbatim>\<open>undefined\<close>, so the assertion in the loop cannot fail:
  the test passes on every page that has an image.
\<close>

lemma images_loop_passes: "images_loop imgs = Pass"
  by (induction imgs) (simp_all add: toBeDefined_def getAttribute_not_undefined Let_def)

lemma alt_text_check_count: "alt_text_check page = Pass \<longleftrightarrow> images page \<noteq> []"
  by (simp add: alt_text_check_def toBeGreaterThan_def images_loop_passes)

text \<open>The loop of the accessibility audit does test the requirement.\<close>

lemma audit_images_loop_pass:
  "audit_images_loop imgs = Pass \<longleftrightarrow> list_all decorative_or_alt imgs"
  by (induction imgs) (auto simp: toBeTruthy_def decorative_or_alt_def Let_def)

text \<open>
  C10. On a page whose only image has no \<^verbatim>\<open>alt\<close> attribute and is not marked
  \<^verbatim>\<open>aria-hidden="true"\<close>, the test of the alternative texts passes, although the image
  is neither decorative nor described; the loop of the accessibility audit rejects the
  same page.
\<close>

theorem alt_text_check_accepts_missing_alt:
  "alt_text_check no_alt_page = Pass \<and>
   \<not> list_all decorative_or_alt (images no_alt_page) \<and>
   audit_images_check no_alt_page = Inl NotTruthy"
  by (simp add: alt_text_check_def audit_images_check_def images_def locator_def matches_def
      no_alt_page_def toBeGreaterThan_def toBeDefined_def toBeTruthy_def decorative_or_alt_def)

end
